theory Spec2Isabelle
  imports Complex_Main "HOL-Library.AList"
begin

section \<open>Data model\<close>

text \<open>
  Values that Python types as \<open>Any\<close>: the result of \<open>response.json()\<close> and the values of a
  context mapping. A finite float is represented by the real number it denotes; it is
  only passed through. A dict is the list of its items in insertion order; the keys of
  a Python dict are distinct, and \<open>map_of\<close> is the lookup.
\<close>

datatype json =
    JNull
  | JBool bool
  | JInt int
  | JFloat real
  | JStr string
  | JArr "json list"
  | JObj "(string \<times> json) list"

text \<open>
  \<open>AgentConfig\<close> of \<open>base_agent.py\<close>. The temperature is a Python float that the agent
  layer only hands to the client.
\<close>

record agent_config =
  name :: string
  model :: string
  system_prompt :: string
  temperature :: real
  max_tokens :: "int option"
  description :: string

text \<open>An entry of \<open>conversation_history\<close>: the dict \<open>{"role": ..., "content": ...}\<close>.\<close>

record turn =
  role :: string
  content :: json

text \<open>
  The fields of a \<open>BaseAgent\<close> object. \<open>client\<close> is the handle of the \<open>OllamaClient\<close>
  the agent was built with.
\<close>

record agent =
  config :: agent_config
  client :: nat
  conversation_history :: "turn list"

text \<open>
  Agents are objects that the coordinator's registry and its callers share, so they live
  in a store and are named by reference.
\<close>

type_synonym ref = nat

text \<open>A call of a method of \<open>OllamaClient\<close>, with the client handle and the arguments passed.\<close>

datatype request =
    Generate nat string string string real "int option"
  | Chat nat string "turn list" real "int option"

text \<open>
  Whatever a client method or a method of a built-in object raises. \<open>ClientError\<close> carries
  the exception object of the transport, \<open>AttributeError\<close> is raised by \<open>.get\<close> on a value
  that is not a dict.
\<close>

datatype exn = ClientError string | AttributeError

text \<open>
  The world outside the pure code: the store of agents, the calls issued to the backend
  so far, and the messages logged at level WARNING. The messages of the levels INFO and
  ERROR change nothing the program reads and are left out.
\<close>

record world =
  agents :: "ref \<Rightarrow> agent"
  calls :: "request list"
  warnings :: "string list"

text \<open>
  What the agent layer does not define itself. \<open>client_generate\<close> and \<open>client_chat\<close> are
  \<open>OllamaClient.generate\<close> and \<open>OllamaClient.chat\<close>: the outcome of a call may depend on all
  the calls issued before it and on the call, and is either a raised exception or the
  returned value (a \<open>str\<close>, respectively a \<open>Dict[str, Any]\<close>). \<open>py_str\<close> is the built-in
  \<open>str()\<close>, which also renders a value inside an f-string, and \<open>py_upper\<close> is \<open>str.upper\<close>.
\<close>

record runtime =
  client_generate :: "request list \<Rightarrow> request \<Rightarrow> exn + string"
  client_chat :: "request list \<Rightarrow> request \<Rightarrow> exn + (string \<times> json) list"
  py_str :: "json \<Rightarrow> string"
  py_upper :: "string \<Rightarrow> string"

section \<open>BaseAgent\<close>

text \<open>\<open>sep.join(xs)\<close> on a list of strings.\<close>

fun join :: "string \<Rightarrow> string list \<Rightarrow> string" where
  "join sep [] = []"
| "join sep [x] = x"
| "join sep (x # y # ys) = x @ sep @ join sep (y # ys)"

text \<open>
  \<open>BaseAgent._prepare_prompt\<close>. \<open>if context:\<close> is false for \<open>None\<close> and for an empty dict.
\<close>

definition prepare_prompt ::
  "runtime \<Rightarrow> string \<Rightarrow> (string \<times> json) list option \<Rightarrow> string" where
  "prepare_prompt rt task ctx =
     (case ctx of
        None \<Rightarrow> task
      | Some [] \<Rightarrow> task
      | Some (kv # kvs) \<Rightarrow>
          (let context_str = join ''\<newline>'' (map (\<lambda>(k, v). k @ '': '' @ py_str rt v) (kv # kvs))
           in ''Context:\<newline>'' @ context_str @ ''\<newline>\<newline>Task:\<newline>'' @ task))"

text \<open>The arguments \<open>run\<close> passes to \<open>self.client.generate\<close>.\<close>

definition generate_request :: "agent \<Rightarrow> string \<Rightarrow> request" where
  "generate_request a prompt =
     Generate (client a) (model (config a)) prompt (system_prompt (config a))
       (temperature (config a)) (max_tokens (config a))"

definition user_turn :: "string \<Rightarrow> turn" where
  "user_turn text = \<lparr>role = ''user'', content = JStr text\<rparr>"

definition assistant_turn :: "json \<Rightarrow> turn" where
  "assistant_turn reply = \<lparr>role = ''assistant'', content = reply\<rparr>"

definition set_history :: "ref \<Rightarrow> turn list \<Rightarrow> world \<Rightarrow> world" where
  "set_history self h w =
     w\<lparr>agents := (agents w)(self := (agents w self)\<lparr>conversation_history := h\<rparr>)\<rparr>"

text \<open>
  \<open>BaseAgent.run\<close>. The two turns are appended after \<open>generate\<close> has returned; an
  exception of \<open>generate\<close> is logged and re-raised.
\<close>

definition run ::
  "runtime \<Rightarrow> ref \<Rightarrow> string \<Rightarrow> (string \<times> json) list option \<Rightarrow> world \<Rightarrow> (exn + string) \<times> world" where
  "run rt self task ctx w =
     (let prompt = prepare_prompt rt task ctx;
          q = generate_request (agents w self) prompt;
          w1 = w\<lparr>calls := calls w @ [q]\<rparr>
      in case client_generate rt (calls w) q of
           Inl e \<Rightarrow> (Inl e, w1)
         | Inr response \<Rightarrow>
             (Inr response,
              set_history self
                (conversation_history (agents w1 self)
                   @ [user_turn task, assistant_turn (JStr response)]) w1))"

text \<open>The arguments \<open>chat\<close> passes to \<open>self.client.chat\<close>.\<close>

definition chat_request :: "agent \<Rightarrow> request" where
  "chat_request a =
     Chat (client a) (model (config a)) (conversation_history a)
       (temperature (config a)) (max_tokens (config a))"

text \<open>
  The extraction of the reply in \<open>chat\<close>: \<open>response_data["message"].get("content", "")\<close>
  when the key \<open>"message"\<close> is in the response, \<open>str(response_data)\<close> otherwise.
\<close>

definition extract_reply :: "runtime \<Rightarrow> (string \<times> json) list \<Rightarrow> exn + json" where
  "extract_reply rt response_data =
     (case map_of response_data ''message'' of
        Some (JObj message) \<Rightarrow>
          (case map_of message ''content'' of
             Some c \<Rightarrow> Inr c
           | None \<Rightarrow> Inr (JStr ''''))
      | Some _ \<Rightarrow> Inl AttributeError
      | None \<Rightarrow> Inr (JStr (py_str rt (JObj response_data))))"

text \<open>
  \<open>BaseAgent.chat\<close>. The user turn is appended before the \<open>try\<close>; the \<open>except\<close> clause
  logs and re-raises without touching the history.
\<close>

definition chat :: "runtime \<Rightarrow> ref \<Rightarrow> string \<Rightarrow> world \<Rightarrow> (exn + json) \<times> world" where
  "chat rt self message w =
     (let w1 = set_history self (conversation_history (agents w self) @ [user_turn message]) w;
          q = chat_request (agents w1 self);
          w2 = w1\<lparr>calls := calls w1 @ [q]\<rparr>
      in case client_chat rt (calls w1) q of
           Inl e \<Rightarrow> (Inl e, w2)
         | Inr response_data \<Rightarrow>
             (case extract_reply rt response_data of
                Inl e \<Rightarrow> (Inl e, w2)
              | Inr response \<Rightarrow>
                  (Inr response,
                   set_history self
                     (conversation_history (agents w2 self) @ [assistant_turn response]) w2)))"

definition reset_conversation :: "ref \<Rightarrow> world \<Rightarrow> world" where
  "reset_conversation self w = set_history self [] w"

definition get_conversation_history :: "ref \<Rightarrow> world \<Rightarrow> turn list" where
  "get_conversation_history self w = conversation_history (agents w self)"

text \<open>
  A caller that issues \<open>chat\<close> calls one after another on the same agent and collects
  the replies; the first exception ends the sequence, as it would in the caller.
\<close>

fun chat_sequence ::
  "runtime \<Rightarrow> ref \<Rightarrow> string list \<Rightarrow> world \<Rightarrow> (exn + json list) \<times> world" where
  "chat_sequence rt self [] w = (Inr [], w)"
| "chat_sequence rt self (m # ms) w =
     (case chat rt self m w of
        (Inl e, w') \<Rightarrow> (Inl e, w')
      | (Inr r, w') \<Rightarrow>
          (case chat_sequence rt self ms w' of
             (Inl e, w'') \<Rightarrow> (Inl e, w'')
           | (Inr rs, w'') \<Rightarrow> (Inr (r # rs), w'')))"

section \<open>CoordinatorAgent\<close>

text \<open>
  A \<open>CoordinatorAgent\<close> object: its \<open>BaseAgent\<close> fields are in the store under
  \<open>coordinator_ref\<close>; \<open>available_agents\<close> is the dict from names to agent objects, in
  insertion order.
\<close>

record coordinator_agent =
  coordinator_ref :: ref
  available_agents :: "(string \<times> ref) list"

text \<open>
  \<open>register_agent\<close>: \<open>self.available_agents[agent.config.name] = agent\<close>. Assignment to a
  dict key replaces the value of a key that is there and appends a new key otherwise,
  which is \<open>AList.update\<close>.
\<close>

definition register_agent :: "world \<Rightarrow> ref \<Rightarrow> coordinator_agent \<Rightarrow> coordinator_agent" where
  "register_agent w a c =
     c\<lparr>available_agents := AList.update (name (config (agents w a))) a (available_agents c)\<rparr>"

definition list_available_agents :: "coordinator_agent \<Rightarrow> string list" where
  "list_available_agents c = map fst (available_agents c)"

text \<open>The decimal digits of a natural number, as an f-string renders an \<open>int\<close>.\<close>

fun str_nat :: "nat \<Rightarrow> string" where
  "str_nat n =
     (if n < 10 then [char_of (48 + n)]
      else str_nat (n div 10) @ [char_of (48 + n mod 10)])"

declare str_nat.simps [simp del]

text \<open>\<open>CoordinatorAgent._format_results\<close>.\<close>

definition format_results :: "runtime \<Rightarrow> (string \<times> string list) list \<Rightarrow> string" where
  "format_results rt results =
     join ''\<newline>''
       (concat (map (\<lambda>(a, agent_results).
          (''\<newline>=== '' @ py_upper rt a @ '' ==='')
            # map (\<lambda>(i, result). ''\<newline>Subtarea '' @ str_nat i @ '':\<newline>'' @ result @ ''\<newline>'')
                (enumerate 1 agent_results))
          results))"

text \<open>
  The f-string \<open>synthesis_task\<close> of \<open>delegate_and_synthesize\<close>. The accented o of the
  last word is its two UTF-8 bytes.
\<close>

definition synthesis_task :: "runtime \<Rightarrow> string \<Rightarrow> (string \<times> string list) list \<Rightarrow> string" where
  "synthesis_task rt task results =
     ''Sintetiza los siguientes resultados de diferentes agentes:\<newline>\<newline>Tarea Original: ''
     @ task
     @ ''\<newline>\<newline>Resultados por agente:\<newline>''
     @ format_results rt results
     @ ''\<newline>\<newline>Genera un resultado final coherente y completo que integre toda la informaci''
     @ [CHR 0xC3, CHR 0xB3] @ ''n.''"

text \<open>
  The inner loop of \<open>delegate_and_synthesize\<close>: every subtask is run on the agent, with no
  context, and its result appended to \<open>agent_results\<close>. An exception of \<open>run\<close> leaves the
  loop.
\<close>

fun run_subtasks ::
  "runtime \<Rightarrow> ref \<Rightarrow> string list \<Rightarrow> string list \<Rightarrow> world \<Rightarrow> (exn + string list) \<times> world" where
  "run_subtasks rt a [] agent_results w = (Inr agent_results, w)"
| "run_subtasks rt a (subtask # subtasks) agent_results w =
     (case run rt a subtask None w of
        (Inl e, w') \<Rightarrow> (Inl e, w')
      | (Inr result, w') \<Rightarrow> run_subtasks rt a subtasks (agent_results @ [result]) w')"

definition not_available_warning :: "string \<Rightarrow> string" where
  "not_available_warning agent_name = ''Agent '' @ agent_name @ '' not available, skipping''"

text \<open>
  The outer loop of \<open>delegate_and_synthesize\<close> over \<open>agent_tasks.items()\<close>: a name that is
  not a key of \<open>available_agents\<close> is logged as a warning and skipped; otherwise the
  agent's subtasks are run and \<open>results[agent_name]\<close> is assigned.
\<close>

fun delegate ::
  "runtime \<Rightarrow> (string \<times> ref) list \<Rightarrow> (string \<times> string list) list
     \<Rightarrow> (string \<times> string list) list \<Rightarrow> world
     \<Rightarrow> (exn + (string \<times> string list) list) \<times> world" where
  "delegate rt registry [] results w = (Inr results, w)"
| "delegate rt registry ((agent_name, subtasks) # rest) results w =
     (case map_of registry agent_name of
        None \<Rightarrow>
          delegate rt registry rest results
            (w\<lparr>warnings := warnings w @ [not_available_warning agent_name]\<rparr>)
      | Some a \<Rightarrow>
          (case run_subtasks rt a subtasks [] w of
             (Inl e, w') \<Rightarrow> (Inl e, w')
           | (Inr agent_results, w') \<Rightarrow>
               delegate rt registry rest (AList.update agent_name agent_results results) w'))"

text \<open>
  \<open>CoordinatorAgent.delegate_and_synthesize\<close>: the delegation loop, then one \<open>run\<close> of the
  coordinator itself on the synthesis task.
\<close>

definition delegate_and_synthesize ::
  "runtime \<Rightarrow> coordinator_agent \<Rightarrow> string \<Rightarrow> (string \<times> string list) list \<Rightarrow> world
     \<Rightarrow> (exn + string) \<times> world" where
  "delegate_and_synthesize rt c task agent_tasks w =
     (case delegate rt (available_agents c) agent_tasks [] w of
        (Inl e, w') \<Rightarrow> (Inl e, w')
      | (Inr results, w') \<Rightarrow>
          run rt (coordinator_ref c) (synthesis_task rt task results) None w')"

section \<open>Concrete runtimes, agents and stores\<close>

text \<open>
  The inputs at which the theorems below are evaluated. The client of
  \<open>example_runtime down response_data\<close> raises on the call numbered \<open>down\<close> (counted from
  0) and otherwise answers \<open>generate\<close> with \<open>ok\<close> and \<open>chat\<close> with \<open>response_data\<close>.

  \<open>example_str\<close> is \<open>str()\<close> where its result is plain to write down: on \<open>None\<close>, the
  booleans, the integers, strings, and the lists and dicts of those. A string inside a
  list or a dict is rendered by \<open>repr()\<close>, which is the string between single quotes when
  it is made of printable ASCII characters other than the single quote and the
  backslash. On floats and on the other strings inside a container \<open>example_str\<close> is
  left unspecified. \<open>ascii_upper\<close> is \<open>str.upper\<close> on ASCII text and is left unspecified
  on other text.
\<close>

definition str_int :: "int \<Rightarrow> string" where
  "str_int i = (if i < 0 then ''-'' @ str_nat (nat (- i)) else str_nat (nat i))"

definition plain :: "string \<Rightarrow> bool" where
  "plain s =
     list_all (\<lambda>c. 32 \<le> (of_char c :: nat) \<and> (of_char c :: nat) \<le> 126
                    \<and> c \<noteq> CHR 0x27 \<and> c \<noteq> CHR 0x5C) s"

definition quoted :: "string \<Rightarrow> string" where
  "quoted s = (if plain s then [CHR 0x27] @ s @ [CHR 0x27] else undefined)"

fun example_repr :: "json \<Rightarrow> string" where
  "example_repr JNull = ''None''"
| "example_repr (JBool b) = (if b then ''True'' else ''False'')"
| "example_repr (JInt i) = str_int i"
| "example_repr (JStr s) = quoted s"
| "example_repr (JArr xs) = ''['' @ join '', '' (map example_repr xs) @ '']''"
| "example_repr (JObj kvs) =
     ''{'' @ join '', '' (map (\<lambda>(k, v). quoted k @ '': '' @ example_repr v) kvs) @ ''}''"

definition example_str :: "json \<Rightarrow> string" where
  "example_str v = (case v of JStr s \<Rightarrow> s | _ \<Rightarrow> example_repr v)"

definition ascii_upper :: "string \<Rightarrow> string" where
  "ascii_upper s =
     (if list_all (\<lambda>c. (of_char c :: nat) < 128) s
      then map (\<lambda>c. if 97 \<le> (of_char c :: nat) \<and> (of_char c :: nat) \<le> 122
                     then char_of ((of_char c :: nat) - 32) else c) s
      else undefined)"

definition example_runtime :: "nat option \<Rightarrow> (string \<times> json) list \<Rightarrow> runtime" where
  "example_runtime down response_data =
     \<lparr>client_generate =
        (\<lambda>issued q. if Some (length issued) = down then Inl (ClientError ''connection refused'')
                     else Inr ''ok''),
      client_chat =
        (\<lambda>issued q. if Some (length issued) = down then Inl (ClientError ''connection refused'')
                     else Inr response_data),
      py_str = example_str,
      py_upper = ascii_upper\<rparr>"

text \<open>The shape of a response of the \<open>/api/chat\<close> endpoint.\<close>

definition example_response :: "(string \<times> json) list" where
  "example_response =
     [(''model'', JStr ''llama3.2''),
      (''message'', JObj [(''role'', JStr ''assistant''), (''content'', JStr ''hello'')]),
      (''done'', JBool True)]"

definition example_agent :: "string \<Rightarrow> agent" where
  "example_agent n =
     \<lparr>config = \<lparr>name = n, model = ''llama3.2'', system_prompt = ''You are helpful.'',
                temperature = 0.7, max_tokens = Some 2048, description = ''''\<rparr>,
      client = 0,
      conversation_history = []\<rparr>"

text \<open>A store with the coordinator at reference 0, a researcher at 1 and coders elsewhere.\<close>

definition example_world :: world where
  "example_world =
     \<lparr>agents = (\<lambda>r. if r = 0 then example_agent ''Coordinator''
                     else if r = 1 then example_agent ''Researcher''
                     else example_agent ''Coder''),
      calls = [], warnings = []\<rparr>"

text \<open>
  A coordinator with the researcher at reference 1 and a coder at reference 2 registered,
  in that order.
\<close>

definition example_coordinator :: coordinator_agent where
  "example_coordinator =
     register_agent example_world 2
       (register_agent example_world 1 \<lparr>coordinator_ref = 0, available_agents = []\<rparr>)"

section \<open>The calls a delegation issues\<close>

text \<open>
  The \<open>generate\<close> calls that a delegation map asks for: for every entry whose name is
  registered, one call per subtask, entries and subtasks in the order of the map.
\<close>

definition delegated_requests ::
  "world \<Rightarrow> (string \<times> ref) list \<Rightarrow> (string \<times> string list) list \<Rightarrow> request list" where
  "delegated_requests w registry agent_tasks =
     concat (map (\<lambda>(agent_name, subtasks).
        case map_of registry agent_name of
          None \<Rightarrow> []
        | Some a \<Rightarrow> map (generate_request (agents w a)) subtasks) agent_tasks)"

text \<open>
  The client answering a list of \<open>generate\<close> calls one after another, up to the first
  exception: the replies or the exception, and the calls issued.
\<close>

fun feed :: "runtime \<Rightarrow> request list \<Rightarrow> request list \<Rightarrow> (exn + string list) \<times> request list" where
  "feed rt issued [] = (Inr [], issued)"
| "feed rt issued (q # qs) =
     (case client_generate rt issued q of
        Inl e \<Rightarrow> (Inl e, issued @ [q])
      | Inr s \<Rightarrow>
          (case feed rt (issued @ [q]) qs of
             (Inl e, l) \<Rightarrow> (Inl e, l)
           | (Inr ss, l) \<Rightarrow> (Inr (s # ss), l)))"

text \<open>No agent of the store has changed its configuration or its client.\<close>

definition same_identity :: "world \<Rightarrow> world \<Rightarrow> bool" where
  "same_identity w w' \<longleftrightarrow> (\<forall>r p. generate_request (agents w' r) p = generate_request (agents w r) p)"

text \<open>Two worlds that differ in the logged warnings at most.\<close>

definition core_eq :: "world \<Rightarrow> world \<Rightarrow> bool" where
  "core_eq w1 w2 \<longleftrightarrow> agents w1 = agents w2 \<and> calls w1 = calls w2"

section \<open>Properties of BaseAgent\<close>

lemmas example_defs = example_runtime_def example_response_def example_agent_def example_world_def
  example_str_def

lemma chat_history_ok:
  "chat rt self message w = (Inr reply, w') \<Longrightarrow>
   conversation_history (agents w' self) =
     conversation_history (agents w self) @ [user_turn message, assistant_turn reply]"
  by (auto simp: chat_def Let_def set_history_def split: sum.splits)

lemma chat_sequence_history:
  "chat_sequence rt self ms w = (Inr rs, w') \<Longrightarrow>
   length rs = length ms \<and>
   conversation_history (agents w' self) =
     conversation_history (agents w self)
       @ concat (map (\<lambda>(m, r). [user_turn m, assistant_turn r]) (zip ms rs))"
proof (induction ms arbitrary: w rs)
  case Nil
  then show ?case by simp
next
  case (Cons m ms)
  from Cons.prems obtain r w1 rs' where
    c: "chat rt self m w = (Inr r, w1)" and
    s: "chat_sequence rt self ms w1 = (Inr rs', w')" and
    rs: "rs = r # rs'"
    by (auto split: sum.splits prod.splits)
  from Cons.IH [OF s] chat_history_ok [OF c] rs show ?case by simp
qed

lemma join_Cons: "join sep (x # xs) = x @ concat (map (\<lambda>y. sep @ y) xs)"
  by (induction xs arbitrary: x) simp_all

lemma join_map_Cons: "join sep (map f (x # xs)) = f x @ concat (map (\<lambda>y. sep @ f y) xs)"
  by (simp add: join_Cons comp_def)

subsection \<open>History and \<open>run\<close>\<close>

text \<open>
  C1, as stated: \<open>run\<close> leaves the conversation history of the agent unchanged. It does
  not: on the store \<open>example_world\<close>, with a client that answers \<open>ok\<close>, the history of the
  agent at reference 1 after \<open>run("hi")\<close> differs from the history before.
\<close>

theorem run_history_counterexample:
  "\<not> get_conversation_history 1 (snd (run (example_runtime None example_response) 1 ''hi'' None example_world))
       = get_conversation_history 1 example_world"
  by (simp add: run_def Let_def example_defs get_conversation_history_def set_history_def)

text \<open>
  C1, amended: a \<open>run(task, context)\<close> whose \<open>generate\<close> call returns appends exactly two
  turns to the history of the agent, the user turn holding the task text and the
  assistant turn holding the response; a \<open>run\<close> whose \<open>generate\<close> call raises leaves the
  history as it was.
\<close>

theorem run_appends_on_success:
  "get_conversation_history self (snd (run rt self task ctx w)) =
     (case fst (run rt self task ctx w) of
        Inl e \<Rightarrow> get_conversation_history self w
      | Inr response \<Rightarrow>
          get_conversation_history self w @ [user_turn task, assistant_turn (JStr response)])"
  by (simp add: run_def Let_def get_conversation_history_def set_history_def split: sum.splits)

text \<open>
  C10: when the \<open>generate\<close> call inside \<open>run\<close> raises, \<open>run\<close> raises the same exception
  and the store of agents, hence every conversation history, is what it was before the
  call.
\<close>

theorem run_failure_keeps_history:
  assumes "client_generate rt (calls w)
             (generate_request (agents w self) (prepare_prompt rt task ctx)) = Inl e"
  shows "fst (run rt self task ctx w) = Inl e
       \<and> agents (snd (run rt self task ctx w)) = agents w
       \<and> (\<forall>r. get_conversation_history r (snd (run rt self task ctx w)) = get_conversation_history r w)"
  using assms by (simp add: run_def Let_def get_conversation_history_def)

text \<open>
  C10 at a client that refuses the first call: the history of the agent at reference 1
  stays empty.
\<close>

theorem run_failure_keeps_history_witness:
  "client_generate (example_runtime (Some 0) example_response) (calls example_world)
     (generate_request (agents example_world 1)
        (prepare_prompt (example_runtime (Some 0) example_response) ''hi'' None))
     = Inl (ClientError ''connection refused'')
   \<and> fst (run (example_runtime (Some 0) example_response) 1 ''hi'' None example_world)
       = Inl (ClientError ''connection refused'')
   \<and> get_conversation_history 1
        (snd (run (example_runtime (Some 0) example_response) 1 ''hi'' None example_world)) = []"
proof -
  have h: "client_generate (example_runtime (Some 0) example_response) (calls example_world)
     (generate_request (agents example_world 1)
        (prepare_prompt (example_runtime (Some 0) example_response) ''hi'' None))
     = Inl (ClientError ''connection refused'')"
    by (simp add: example_defs)
  have e: "get_conversation_history 1 example_world = []"
    by (simp add: example_defs get_conversation_history_def)
  from run_failure_keeps_history [OF h] h e show ?thesis by simp
qed

subsection \<open>History and \<open>chat\<close>\<close>

text \<open>
  C3: after a sequence of \<open>chat\<close> calls with messages \<open>ms\<close> that returned the replies \<open>rs\<close>,
  there is one reply per message and the history is the history before, followed by
  the user turn of the first message, the assistant turn of the first reply, the user
  turn of the second message, and so on. From the empty history that is exactly the
  alternating sequence; a single call is the sequence of one message.
\<close>

theorem chat_sequence_alternates:
  assumes "chat_sequence rt self ms w = (Inr rs, w')"
  shows "length rs = length ms
       \<and> get_conversation_history self w' =
           get_conversation_history self w
             @ concat (map (\<lambda>(m, r). [user_turn m, assistant_turn r]) (zip ms rs))"
  using chat_sequence_history [OF assms] by (simp add: get_conversation_history_def)

lemma example_chat_sequence:
  "\<exists>w'. chat_sequence (example_runtime None example_response) 1 [''m1'', ''m2''] example_world
       = (Inr [JStr ''hello'', JStr ''hello''], w')"
  by (simp add: chat_def Let_def example_defs set_history_def extract_reply_def chat_request_def)

text \<open>
  C3 at two calls from the empty history, with a client that replies \<open>hello\<close>.
\<close>

theorem chat_sequence_alternates_witness:
  "get_conversation_history 1 example_world = []
   \<and> fst (chat_sequence (example_runtime None example_response) 1 [''m1'', ''m2''] example_world)
       = Inr [JStr ''hello'', JStr ''hello'']
   \<and> get_conversation_history 1
        (snd (chat_sequence (example_runtime None example_response) 1 [''m1'', ''m2''] example_world))
       = [user_turn ''m1'', assistant_turn (JStr ''hello''),
          user_turn ''m2'', assistant_turn (JStr ''hello'')]"
proof -
  obtain w' where h: "chat_sequence (example_runtime None example_response) 1 [''m1'', ''m2''] example_world
       = (Inr [JStr ''hello'', JStr ''hello''], w')"
    using example_chat_sequence by blast
  have e: "get_conversation_history 1 example_world = []"
    by (simp add: example_defs get_conversation_history_def)
  from chat_sequence_alternates [OF h] h e show ?thesis by simp
qed

text \<open>
  C5: when the \<open>chat\<close> call of the client raises, \<open>chat\<close> raises the same exception and
  the history is the history before followed by the user turn of the message: the user
  turn stays and no assistant turn is appended.
\<close>

theorem chat_failure_keeps_user_turn:
  assumes "client_chat rt (calls w)
             (chat_request ((agents w self)
                \<lparr>conversation_history := conversation_history (agents w self) @ [user_turn message]\<rparr>))
           = Inl e"
  shows "fst (chat rt self message w) = Inl e
       \<and> get_conversation_history self (snd (chat rt self message w)) =
           get_conversation_history self w @ [user_turn message]"
  using assms by (simp add: chat_def Let_def set_history_def get_conversation_history_def)

text \<open>
  C5 at a client that refuses the first call.
\<close>

theorem chat_failure_keeps_user_turn_witness:
  "client_chat (example_runtime (Some 0) example_response) (calls example_world)
     (chat_request ((agents example_world 1)
        \<lparr>conversation_history := conversation_history (agents example_world 1) @ [user_turn ''hi'']\<rparr>))
     = Inl (ClientError ''connection refused'')
   \<and> fst (chat (example_runtime (Some 0) example_response) 1 ''hi'' example_world)
       = Inl (ClientError ''connection refused'')
   \<and> get_conversation_history 1
        (snd (chat (example_runtime (Some 0) example_response) 1 ''hi'' example_world))
       = [user_turn ''hi'']"
proof -
  have h: "client_chat (example_runtime (Some 0) example_response) (calls example_world)
     (chat_request ((agents example_world 1)
        \<lparr>conversation_history := conversation_history (agents example_world 1) @ [user_turn ''hi'']\<rparr>))
     = Inl (ClientError ''connection refused'')"
    by (simp add: example_defs)
  have e: "get_conversation_history 1 example_world = []"
    by (simp add: example_defs get_conversation_history_def)
  from chat_failure_keeps_user_turn [OF h] h e show ?thesis by simp
qed

text \<open>
  C6, as stated: for every response of the client, \<open>chat\<close> extracts the reply from the
  expected field and falls back to \<open>str()\<close> of the response instead of failing. It does
  not for every response: on \<open>{"message": "hello"}\<close> the key \<open>message\<close> is there, its
  value has no \<open>get\<close>, and \<open>chat\<close> raises AttributeError.
\<close>

theorem chat_reply_counterexample:
  "fst (chat (example_runtime None [(''message'', JStr ''hello'')]) 1 ''hi'' example_world)
     = Inl AttributeError"
  by (simp add: chat_def Let_def example_defs set_history_def extract_reply_def chat_request_def)

text \<open>
  C6, amended: for every response the client returns, when the response has no
  \<open>message\<close> key, \<open>chat\<close> returns \<open>str()\<close> of the whole response and does not raise; when
  \<open>message\<close> is there and is an object, \<open>chat\<close> returns its \<open>content\<close>, or the empty
  string when the object has no \<open>content\<close>; when \<open>message\<close> is there and is not an
  object, \<open>chat\<close> raises the AttributeError of the \<open>.get\<close> call.
\<close>

theorem chat_reply_extraction:
  assumes "client_chat rt (calls w)
             (chat_request ((agents w self)
                \<lparr>conversation_history := conversation_history (agents w self) @ [user_turn message]\<rparr>))
           = Inr response_data"
  shows "(map_of response_data ''message'' = None \<longrightarrow>
            fst (chat rt self message w) = Inr (JStr (py_str rt (JObj response_data))))
       \<and> (\<forall>msg. map_of response_data ''message'' = Some (JObj msg) \<longrightarrow>
            fst (chat rt self message w) =
              Inr (case map_of msg ''content'' of Some c \<Rightarrow> c | None \<Rightarrow> JStr ''''))
       \<and> (\<forall>v. map_of response_data ''message'' = Some v \<longrightarrow> (\<forall>msg. v \<noteq> JObj msg) \<longrightarrow>
            fst (chat rt self message w) = Inl AttributeError)"
proof -
  have r: "fst (chat rt self message w) = extract_reply rt response_data"
    using assms by (simp add: chat_def Let_def set_history_def split: sum.splits)
  have a: "map_of response_data ''message'' = None \<longrightarrow>
             extract_reply rt response_data = Inr (JStr (py_str rt (JObj response_data)))"
    by (simp add: extract_reply_def)
  have b: "\<forall>msg. map_of response_data ''message'' = Some (JObj msg) \<longrightarrow>
             extract_reply rt response_data =
               Inr (case map_of msg ''content'' of Some c \<Rightarrow> c | None \<Rightarrow> JStr '''')"
    by (simp add: extract_reply_def split: option.splits)
  have c: "\<forall>v. map_of response_data ''message'' = Some v \<longrightarrow> (\<forall>msg. v \<noteq> JObj msg) \<longrightarrow>
             extract_reply rt response_data = Inl AttributeError"
    by (auto simp: extract_reply_def split: json.splits)
  from a b c show ?thesis unfolding r by blast
qed

text \<open>
  C6 at a response without a message, at a response with a message, and at a response
  whose message is \<open>null\<close>.
\<close>

theorem chat_reply_extraction_witness:
  "fst (chat (example_runtime None [(''done'', JBool True)]) 1 ''hi'' example_world)
     = Inr (JStr ''{'done': True}'')
   \<and> fst (chat (example_runtime None example_response) 1 ''hi'' example_world)
     = Inr (JStr ''hello'')
   \<and> fst (chat (example_runtime None [(''message'', JNull)]) 1 ''hi'' example_world)
     = Inl AttributeError"
proof -
  let ?q = "chat_request ((agents example_world 1)
        \<lparr>conversation_history := conversation_history (agents example_world 1) @ [user_turn ''hi'']\<rparr>)"
  have h1: "client_chat (example_runtime None [(''done'', JBool True)]) (calls example_world) ?q
              = Inr [(''done'', JBool True)]"
    by (simp add: example_defs)
  have h2: "client_chat (example_runtime None example_response) (calls example_world) ?q
              = Inr example_response"
    by (simp add: example_defs)
  have h3: "client_chat (example_runtime None [(''message'', JNull)]) (calls example_world) ?q
              = Inr [(''message'', JNull)]"
    by (simp add: example_defs)
  have m1: "map_of [(''done'', JBool True)] ''message'' = None" by simp
  have m2: "map_of example_response ''message''
              = Some (JObj [(''role'', JStr ''assistant''), (''content'', JStr ''hello'')])"
    by (simp add: example_response_def)
  have m3: "map_of [(''message'', JNull)] ''message'' = Some JNull" by simp
  have p: "py_str (example_runtime None [(''done'', JBool True)]) (JObj [(''done'', JBool True)])
             = ''{'done': True}''"
    by (simp add: example_defs quoted_def plain_def)
  from chat_reply_extraction [OF h1] m1 p
  have a: "fst (chat (example_runtime None [(''done'', JBool True)]) 1 ''hi'' example_world)
             = Inr (JStr ''{'done': True}'')"
    by simp
  from chat_reply_extraction [OF h2] m2
  have b: "fst (chat (example_runtime None example_response) 1 ''hi'' example_world)
             = Inr (JStr ''hello'')"
    by simp
  from chat_reply_extraction [OF h3] m3
  have c: "fst (chat (example_runtime None [(''message'', JNull)]) 1 ''hi'' example_world)
             = Inl AttributeError"
    by simp
  from a b c show ?thesis by simp
qed

subsection \<open>The prompt of \<open>run\<close>\<close>

text \<open>
  C9: \<open>run\<close> issues one \<open>generate\<close> call, whose prompt is built from the task and the
  context. Without a context, and with an empty one, the prompt is the task text. With
  entries, it is the line \<open>Context:\<close>, one line \<open>key: value\<close> for every entry in the
  order of the mapping, an empty line, the line \<open>Task:\<close> and the task text.
\<close>

theorem run_prompt:
  "calls (snd (run rt self task ctx w)) =
     calls w @ [generate_request (agents w self) (prepare_prompt rt task ctx)]
   \<and> prepare_prompt rt task None = task
   \<and> prepare_prompt rt task (Some []) = task
   \<and> prepare_prompt rt task (Some ((k, v) # kvs)) =
       ''Context:\<newline>''
       @ (k @ '': '' @ py_str rt v)
       @ concat (map (\<lambda>(k', v'). ''\<newline>'' @ k' @ '': '' @ py_str rt v') kvs)
       @ ''\<newline>\<newline>Task:\<newline>'' @ task"
proof -
  have c: "calls (snd (run rt self task ctx w)) =
     calls w @ [generate_request (agents w self) (prepare_prompt rt task ctx)]"
    by (simp add: run_def Let_def set_history_def split: sum.splits)
  have m: "(\<lambda>y. ''\<newline>'' @ (case y of (k', v') \<Rightarrow> k' @ '': '' @ py_str rt v'))
             = (\<lambda>(k', v'). ''\<newline>'' @ k' @ '': '' @ py_str rt v')"
    by (simp add: fun_eq_iff split: prod.splits)
  have j: "join ''\<newline>'' (map (\<lambda>(k', v'). k' @ '': '' @ py_str rt v') ((k, v) # kvs))
             = (k @ '': '' @ py_str rt v)
               @ concat (map (\<lambda>(k', v'). ''\<newline>'' @ k' @ '': '' @ py_str rt v') kvs)"
    using join_map_Cons [of "''\<newline>''" "\<lambda>(k', v'). k' @ '': '' @ py_str rt v'" "(k, v)" kvs]
    unfolding m by simp
  have s: "prepare_prompt rt task (Some ((k, v) # kvs)) =
       ''Context:\<newline>''
       @ (k @ '': '' @ py_str rt v)
       @ concat (map (\<lambda>(k', v'). ''\<newline>'' @ k' @ '': '' @ py_str rt v') kvs)
       @ ''\<newline>\<newline>Task:\<newline>'' @ task"
    unfolding prepare_prompt_def Let_def list.case option.case j by simp
  from c s show ?thesis by (simp add: prepare_prompt_def)
qed

section \<open>Properties of CoordinatorAgent\<close>

lemma example_registry:
  "available_agents example_coordinator = [(''Researcher'', 1), (''Coder'', 2)]"
  by (simp add: example_coordinator_def register_agent_def example_world_def example_agent_def)

lemma example_coordinator_ref: "coordinator_ref example_coordinator = 0"
  by (simp add: example_coordinator_def register_agent_def)

subsection \<open>The registry\<close>

lemma count_list_distinct: "distinct xs \<Longrightarrow> x \<in> set xs \<Longrightarrow> count_list xs x = 1"
  by (induction xs) (auto simp: count_list_0_iff)

text \<open>
  C7: in a registry (a dict, so its keys are distinct), after \<open>register_agent(A)\<close> and
  then \<open>register_agent(A')\<close> for two agents of the same name, \<open>list_available_agents()\<close>
  holds that name exactly once, no name twice, and the entry of the name is \<open>A'\<close>.
\<close>

theorem register_agent_overwrites:
  assumes "distinct (list_available_agents c)"
    and "name (config (agents w a)) = name (config (agents w a'))"
  shows "count_list (list_available_agents (register_agent w a' (register_agent w a c)))
           (name (config (agents w a))) = 1
       \<and> map_of (available_agents (register_agent w a' (register_agent w a c)))
           (name (config (agents w a))) = Some a'
       \<and> distinct (list_available_agents (register_agent w a' (register_agent w a c)))"
proof -
  let ?n = "name (config (agents w a))"
  let ?c2 = "register_agent w a' (register_agent w a c)"
  have av: "available_agents ?c2 = AList.update ?n a' (AList.update ?n a (available_agents c))"
    using assms(2) by (simp add: register_agent_def)
  have d: "distinct (list_available_agents ?c2)"
    using assms(1) by (simp add: av list_available_agents_def distinct_update)
  have m: "?n \<in> set (list_available_agents ?c2)"
    by (simp add: av list_available_agents_def dom_update del: update_last)
  have l: "map_of (available_agents ?c2) ?n = Some a'"
    by (simp add: av update_conv' del: update_last)
  from count_list_distinct [OF d m] l d show ?thesis by simp
qed

text \<open>
  C7 at the empty registry and the two agents named \<open>Coder\<close> at references 2 and 3.
\<close>

theorem register_agent_overwrites_witness:
  "distinct (list_available_agents \<lparr>coordinator_ref = 0, available_agents = []\<rparr>)
   \<and> name (config (agents example_world 2)) = name (config (agents example_world 3))
   \<and> list_available_agents
        (register_agent example_world 3
           (register_agent example_world 2 \<lparr>coordinator_ref = 0, available_agents = []\<rparr>))
       = [''Coder'']
   \<and> map_of (available_agents
        (register_agent example_world 3
           (register_agent example_world 2 \<lparr>coordinator_ref = 0, available_agents = []\<rparr>)))
        ''Coder'' = Some 3"
proof -
  have d: "distinct (list_available_agents \<lparr>coordinator_ref = 0, available_agents = []\<rparr>)"
    by (simp add: list_available_agents_def)
  have n: "name (config (agents example_world 2)) = name (config (agents example_world 3))"
    by (simp add: example_world_def example_agent_def)
  have c: "name (config (agents example_world 2)) = ''Coder''"
    by (simp add: example_world_def example_agent_def)
  have l: "list_available_agents
        (register_agent example_world 3
           (register_agent example_world 2 \<lparr>coordinator_ref = 0, available_agents = []\<rparr>))
       = [''Coder'']"
    by (simp add: list_available_agents_def register_agent_def example_world_def example_agent_def)
  from register_agent_overwrites [OF d n] d n c l show ?thesis by simp
qed

subsection \<open>Delegation follows the client call by call\<close>

lemma same_identity_refl: "same_identity w w"
  by (simp add: same_identity_def)

lemma same_identity_trans: "same_identity w w1 \<Longrightarrow> same_identity w1 w2 \<Longrightarrow> same_identity w w2"
  by (simp add: same_identity_def)

lemma run_None_unfold:
  "run rt a t None w =
     (case client_generate rt (calls w) (generate_request (agents w a) t) of
        Inl e \<Rightarrow> (Inl e, w\<lparr>calls := calls w @ [generate_request (agents w a) t]\<rparr>)
      | Inr s \<Rightarrow> (Inr s,
          set_history a (conversation_history (agents w a) @ [user_turn t, assistant_turn (JStr s)])
            (w\<lparr>calls := calls w @ [generate_request (agents w a) t]\<rparr>)))"
  by (simp add: run_def Let_def prepare_prompt_def split: sum.splits)

lemma run_calls:
  "calls (snd (run rt a t None w)) = calls w @ [generate_request (agents w a) t]"
  by (simp add: run_None_unfold set_history_def split: sum.splits)

lemma run_warnings:
  "warnings (snd (run rt a t None w)) = warnings w"
  by (simp add: run_None_unfold set_history_def split: sum.splits)

lemma run_same_identity:
  "same_identity w (snd (run rt a t None w))"
  by (simp add: run_None_unfold set_history_def same_identity_def generate_request_def split: sum.splits)

lemma run_fst:
  "fst (run rt a t None w) = client_generate rt (calls w) (generate_request (agents w a) t)"
  by (simp add: run_None_unfold split: sum.splits)

lemma run_subtasks_feed:
  "same_identity w0 w \<Longrightarrow>
   (case feed rt (calls w) (map (generate_request (agents w0 a)) ts) of
      (Inl e, l) \<Rightarrow> fst (run_subtasks rt a ts acc w) = Inl e
    | (Inr ss, l) \<Rightarrow> fst (run_subtasks rt a ts acc w) = Inr (acc @ ss))
   \<and> calls (snd (run_subtasks rt a ts acc w)) = snd (feed rt (calls w) (map (generate_request (agents w0 a)) ts))
   \<and> warnings (snd (run_subtasks rt a ts acc w)) = warnings w
   \<and> same_identity w0 (snd (run_subtasks rt a ts acc w))"
proof (induction ts arbitrary: acc w)
  case Nil
  then show ?case by simp
next
  case (Cons t ts)
  have q: "generate_request (agents w0 a) t = generate_request (agents w a) t"
    using Cons.prems by (simp add: same_identity_def)
  show ?case
  proof (cases "client_generate rt (calls w) (generate_request (agents w a) t)")
    case (Inl e)
    then show ?thesis using Cons.prems q
      by (simp add: run_None_unfold same_identity_def)
  next
    case (Inr s)
    define w1 where "w1 = snd (run rt a t None w)"
    have r: "run rt a t None w = (Inr s, w1)"
      using Inr run_fst [of rt a t w] by (simp add: w1_def prod_eq_iff)
    have c1: "calls w1 = calls w @ [generate_request (agents w a) t]"
      by (simp add: w1_def run_calls)
    have i1: "same_identity w0 w1"
      using Cons.prems run_same_identity [of w rt a t] by (auto simp: w1_def intro: same_identity_trans)
    have wn: "warnings w1 = warnings w" by (simp add: w1_def run_warnings)
    from Cons.IH [OF i1, of "acc @ [s]"] r Inr q c1 wn show ?thesis
      by (auto split: prod.splits sum.splits)
  qed
qed

lemma feed_append:
  "feed rt l (xs @ ys) =
     (case feed rt l xs of
        (Inl e, l') \<Rightarrow> (Inl e, l')
      | (Inr ss, l') \<Rightarrow>
          (case feed rt l' ys of
             (Inl e, l'') \<Rightarrow> (Inl e, l'')
           | (Inr ts, l'') \<Rightarrow> (Inr (ss @ ts), l'')))"
  by (induction xs arbitrary: l) (auto split: sum.splits prod.splits)

lemma delegated_requests_Nil: "delegated_requests w0 reg [] = []"
  by (simp add: delegated_requests_def)

lemma delegated_requests_Cons:
  "delegated_requests w0 reg ((n, ts) # rest) =
     (case map_of reg n of None \<Rightarrow> [] | Some a \<Rightarrow> map (generate_request (agents w0 a)) ts)
       @ delegated_requests w0 reg rest"
  by (simp add: delegated_requests_def)

lemma delegate_feed:
  "same_identity w0 w \<Longrightarrow>
   (case feed rt (calls w) (delegated_requests w0 reg ats) of
      (Inl e, l) \<Rightarrow> fst (delegate rt reg ats res w) = Inl e
    | (Inr ss, l) \<Rightarrow> (\<exists>results. fst (delegate rt reg ats res w) = Inr results))
   \<and> calls (snd (delegate rt reg ats res w)) = snd (feed rt (calls w) (delegated_requests w0 reg ats))
   \<and> same_identity w0 (snd (delegate rt reg ats res w))"
proof (induction ats arbitrary: res w)
  case Nil
  then show ?case by (simp add: delegated_requests_Nil)
next
  case (Cons nt ats)
  obtain n ts where nt: "nt = (n, ts)" by (cases nt)
  show ?case
  proof (cases "map_of reg n")
    case None
    let ?w = "w\<lparr>warnings := warnings w @ [not_available_warning n]\<rparr>"
    have i: "same_identity w0 ?w"
      using Cons.prems by (simp add: same_identity_def)
    from Cons.IH [OF i, of res] None show ?thesis
      by (auto simp: nt delegated_requests_Cons split: prod.splits sum.splits)
  next
    case (Some a)
    let ?qs = "map (generate_request (agents w0 a)) ts"
    note sub = run_subtasks_feed [OF Cons.prems, of rt a ts "[]"]
    show ?thesis
    proof (cases "feed rt (calls w) ?qs")
      case (Pair r l)
      show ?thesis
      proof (cases r)
        case (Inl e)
        with Pair sub Some show ?thesis
          by (auto simp: nt delegated_requests_Cons feed_append split: prod.splits sum.splits)
      next
        case (Inr ss)
        define w1 where "w1 = snd (run_subtasks rt a ts [] w)"
        have r1: "run_subtasks rt a ts [] w = (Inr ss, w1)"
          using sub Pair Inr by (simp add: w1_def prod_eq_iff)
        have c1: "calls w1 = l" using sub Pair by (simp add: w1_def)
        have i1: "same_identity w0 w1" using sub by (simp add: w1_def)
        from Cons.IH [OF i1, of "AList.update n ss res"] r1 c1 Pair Inr Some show ?thesis
          by (auto simp: nt delegated_requests_Cons feed_append split: prod.splits sum.splits)
      qed
    qed
  qed
qed

lemma feed_first_failure:
  "k < length qs \<Longrightarrow>
   (\<forall>i<k. \<exists>s. client_generate rt (l @ take i qs) (qs ! i) = Inr s) \<Longrightarrow>
   client_generate rt (l @ take k qs) (qs ! k) = Inl e \<Longrightarrow>
   feed rt l qs = (Inl e, l @ take (Suc k) qs)"
proof (induction qs arbitrary: l k)
  case Nil
  then show ?case by simp
next
  case (Cons q qs)
  show ?case
  proof (cases k)
    case 0
    with Cons.prems show ?thesis by simp
  next
    case (Suc k')
    from Cons.prems(2) Suc obtain s where s: "client_generate rt l q = Inr s"
      by (metis append_Nil2 nth_Cons_0 take_0 zero_less_Suc)
    have a: "\<forall>i<k'. \<exists>s. client_generate rt ((l @ [q]) @ take i qs) (qs ! i) = Inr s"
    proof (intro allI impI)
      fix i assume "i < k'"
      then have "Suc i < k" using Suc by simp
      with Cons.prems(2) show "\<exists>s. client_generate rt ((l @ [q]) @ take i qs) (qs ! i) = Inr s"
        by fastforce
    qed
    have b: "client_generate rt ((l @ [q]) @ take k' qs) (qs ! k') = Inl e"
      using Cons.prems(3) Suc by simp
    have c: "k' < length qs" using Cons.prems(1) Suc by simp
    from Cons.IH [OF c a b] s show ?thesis by (simp add: Suc)
  qed
qed

lemma feed_all_ok:
  "(\<forall>issued q. \<exists>s. client_generate rt issued q = Inr s) \<Longrightarrow>
   \<exists>ss. feed rt l qs = (Inr ss, l @ qs)"
proof (induction qs arbitrary: l)
  case Nil
  then show ?case by simp
next
  case (Cons q qs)
  from Cons.prems obtain s where s: "client_generate rt l q = Inr s" by blast
  from Cons.IH [OF Cons.prems, of "l @ [q]"] obtain ss where
    "feed rt (l @ [q]) qs = (Inr ss, (l @ [q]) @ qs)" by blast
  with s show ?case by simp
qed

lemma length_delegated_requests:
  "set (map fst ats) \<subseteq> fst ` set reg \<Longrightarrow>
   length (delegated_requests w reg ats) = sum_list (map (\<lambda>(n, ts). length ts) ats)"
proof (induction ats)
  case Nil
  then show ?case by (simp add: delegated_requests_Nil)
next
  case (Cons nt ats)
  obtain n ts where nt: "nt = (n, ts)" by (cases nt)
  from Cons.prems nt have "n \<in> fst ` set reg" by simp
  then obtain a where "map_of reg n = Some a"
    by (metis map_of_eq_None_iff not_Some_eq)
  with Cons show ?case by (simp add: nt delegated_requests_Cons)
qed

text \<open>
  C2: let the delegation map ask for the calls \<open>delegated_requests\<close>, and let the client
  answer the first \<open>k\<close> of them and raise \<open>e\<close> on the next one. Then
  \<open>delegate_and_synthesize\<close> raises \<open>e\<close>, and the calls it has issued are those \<open>k\<close> calls
  and the one that failed: no subtask after the failing one is run and no synthesis
  call is issued.
\<close>

theorem delegation_aborts_on_failure:
  assumes "k < length (delegated_requests w (available_agents c) agent_tasks)"
    and "\<forall>i<k. \<exists>s. client_generate rt
            (calls w @ take i (delegated_requests w (available_agents c) agent_tasks))
            (delegated_requests w (available_agents c) agent_tasks ! i) = Inr s"
    and "client_generate rt
            (calls w @ take k (delegated_requests w (available_agents c) agent_tasks))
            (delegated_requests w (available_agents c) agent_tasks ! k) = Inl e"
  shows "fst (delegate_and_synthesize rt c task agent_tasks w) = Inl e
       \<and> calls (snd (delegate_and_synthesize rt c task agent_tasks w)) =
           calls w @ take (Suc k) (delegated_requests w (available_agents c) agent_tasks)"
proof -
  let ?qs = "delegated_requests w (available_agents c) agent_tasks"
  have f: "feed rt (calls w) ?qs = (Inl e, calls w @ take (Suc k) ?qs)"
    using assms by (rule feed_first_failure)
  have i0: "same_identity w w" by (rule same_identity_refl)
  from delegate_feed [OF i0, of rt "available_agents c" agent_tasks "[]"] f
  have "fst (delegate rt (available_agents c) agent_tasks [] w) = Inl e"
    and "calls (snd (delegate rt (available_agents c) agent_tasks [] w)) = calls w @ take (Suc k) ?qs"
    by simp_all
  then obtain w1 where "delegate rt (available_agents c) agent_tasks [] w = (Inl e, w1)"
    and "calls w1 = calls w @ take (Suc k) ?qs"
    by (cases "delegate rt (available_agents c) agent_tasks [] w") simp
  then show ?thesis
    by (simp add: delegate_and_synthesize_def)
qed

lemma example_delegated:
  "delegated_requests example_world (available_agents example_coordinator)
     [(''Researcher'', [''t1'', ''t2'']), (''Coder'', [''t3''])]
   = [generate_request (example_agent ''Researcher'') ''t1'',
      generate_request (example_agent ''Researcher'') ''t2'',
      generate_request (example_agent ''Coder'') ''t3'']"
  by (simp add: delegated_requests_def example_registry example_world_def)

text \<open>
  C2 at a client that answers the first call and refuses the second: the second
  subtask of the researcher fails, the third subtask is not run and nothing is
  synthesized.
\<close>

theorem delegation_aborts_on_failure_witness:
  "fst (delegate_and_synthesize (example_runtime (Some 1) example_response) example_coordinator
          ''T'' [(''Researcher'', [''t1'', ''t2'']), (''Coder'', [''t3''])] example_world)
     = Inl (ClientError ''connection refused'')
   \<and> calls (snd (delegate_and_synthesize (example_runtime (Some 1) example_response)
          example_coordinator ''T'' [(''Researcher'', [''t1'', ''t2'']), (''Coder'', [''t3''])]
          example_world))
     = [generate_request (example_agent ''Researcher'') ''t1'',
        generate_request (example_agent ''Researcher'') ''t2'']"
proof -
  let ?rt = "example_runtime (Some 1) example_response"
  let ?ats = "[(''Researcher'', [''t1'', ''t2'']), (''Coder'', [''t3''])]"
  let ?qs = "delegated_requests example_world (available_agents example_coordinator) ?ats"
  have c: "calls example_world = []" by (simp add: example_world_def)
  have k: "(1::nat) < length ?qs" by (simp add: example_delegated)
  have a: "\<forall>i<(1::nat). \<exists>s. client_generate ?rt (calls example_world @ take i ?qs) (?qs ! i) = Inr s"
    by (simp add: example_delegated example_runtime_def c)
  have b: "client_generate ?rt (calls example_world @ take 1 ?qs) (?qs ! 1)
             = Inl (ClientError ''connection refused'')"
    by (simp add: example_delegated example_runtime_def c)
  have q2: "calls example_world @ take (Suc 1) ?qs
              = [generate_request (example_agent ''Researcher'') ''t1'',
                 generate_request (example_agent ''Researcher'') ''t2'']"
    by (simp add: example_delegated c)
  from delegation_aborts_on_failure [OF k a b, where task = "''T''"] show ?thesis
    unfolding q2 .
qed

text \<open>
  C8: when every name of the delegation map is registered and the client answers
  every call, \<open>delegate_and_synthesize\<close> returns, and the calls it issues are one
  \<open>generate\<close> call per subtask, entries and subtasks in the order of the map, followed
  by one call of the coordinator itself whose prompt is the synthesis task over the
  collected results: as many calls as subtasks, plus one.
\<close>

theorem delegation_calls:
  assumes "set (map fst agent_tasks) \<subseteq> set (list_available_agents c)"
    and "\<forall>issued q. \<exists>s. client_generate rt issued q = Inr s"
  shows "\<exists>results out.
           fst (delegate rt (available_agents c) agent_tasks [] w) = Inr results
         \<and> fst (delegate_and_synthesize rt c task agent_tasks w) = Inr out
         \<and> calls (snd (delegate_and_synthesize rt c task agent_tasks w)) =
             calls w @ delegated_requests w (available_agents c) agent_tasks
               @ [generate_request (agents w (coordinator_ref c)) (synthesis_task rt task results)]
         \<and> length (delegated_requests w (available_agents c) agent_tasks)
             = sum_list (map (\<lambda>(n, ts). length ts) agent_tasks)
         \<and> length (calls (snd (delegate_and_synthesize rt c task agent_tasks w)))
             = length (calls w) + sum_list (map (\<lambda>(n, ts). length ts) agent_tasks) + 1"
proof -
  let ?qs = "delegated_requests w (available_agents c) agent_tasks"
  let ?d = "delegate rt (available_agents c) agent_tasks [] w"
  from feed_all_ok [OF assms(2), of "calls w" ?qs] obtain ss where
    f: "feed rt (calls w) ?qs = (Inr ss, calls w @ ?qs)" by blast
  have i0: "same_identity w w" by (rule same_identity_refl)
  from delegate_feed [OF i0, of rt "available_agents c" agent_tasks "[]"] f
  obtain results where r: "fst ?d = Inr results"
    and cd: "calls (snd ?d) = calls w @ ?qs"
    and i: "same_identity w (snd ?d)"
    by auto
  define w1 where "w1 = snd ?d"
  have d: "?d = (Inr results, w1)" using r by (simp add: w1_def prod_eq_iff)
  let ?q = "generate_request (agents w (coordinator_ref c)) (synthesis_task rt task results)"
  have q: "generate_request (agents w1 (coordinator_ref c)) (synthesis_task rt task results) = ?q"
    using i by (simp add: w1_def same_identity_def)
  from assms(2) obtain out where o: "client_generate rt (calls w1) ?q = Inr out" by blast
  have ds: "delegate_and_synthesize rt c task agent_tasks w
              = run rt (coordinator_ref c) (synthesis_task rt task results) None w1"
    by (simp add: delegate_and_synthesize_def d)
  have o': "fst (delegate_and_synthesize rt c task agent_tasks w) = Inr out"
    by (simp add: ds run_fst q o)
  have cd1: "calls w1 = calls w @ ?qs"
    using cd by (simp add: w1_def)
  have c': "calls (snd (delegate_and_synthesize rt c task agent_tasks w)) = calls w @ ?qs @ [?q]"
    by (simp add: ds run_calls q cd1)
  have len: "length ?qs = sum_list (map (\<lambda>(n, ts). length ts) agent_tasks)"
    using assms(1) by (simp add: length_delegated_requests list_available_agents_def)
  from r o' c' len show ?thesis by simp
qed

text \<open>
  C8 at the registry of the researcher and the coder with one subtask each: three calls.
\<close>

theorem delegation_calls_witness:
  "set (map fst [(''Researcher'', [''Define recursion'']), (''Coder'', [''Write a factorial example''])])
     \<subseteq> set (list_available_agents example_coordinator)
   \<and> (\<forall>issued q. \<exists>s. client_generate (example_runtime None example_response) issued q = Inr s)
   \<and> length (calls (snd (delegate_and_synthesize (example_runtime None example_response)
        example_coordinator ''Explain recursion''
        [(''Researcher'', [''Define recursion'']), (''Coder'', [''Write a factorial example''])]
        example_world))) = 3"
proof -
  let ?rt = "example_runtime None example_response"
  let ?ats = "[(''Researcher'', [''Define recursion'']), (''Coder'', [''Write a factorial example''])]"
  have r: "set (map fst ?ats) \<subseteq> set (list_available_agents example_coordinator)"
    by (simp add: list_available_agents_def example_registry)
  have ok: "\<forall>issued q. \<exists>s. client_generate ?rt issued q = Inr s"
    by (simp add: example_runtime_def)
  have c: "calls example_world = []" by (simp add: example_world_def)
  from delegation_calls [OF r ok, where task = "''Explain recursion''" and w = example_world]
  have "length (calls (snd (delegate_and_synthesize ?rt example_coordinator ''Explain recursion''
          ?ats example_world))) = 3"
    by (auto simp: c)
  with r ok show ?thesis by blast
qed

subsection \<open>Names that are not registered\<close>

lemma core_eq_refl: "core_eq w w"
  by (simp add: core_eq_def)

lemma core_eq_warnings: "core_eq (w\<lparr>warnings := ws\<rparr>) w"
  by (simp add: core_eq_def)

lemma core_eq_trans: "core_eq w1 w2 \<Longrightarrow> core_eq w2 w3 \<Longrightarrow> core_eq w1 w3"
  by (simp add: core_eq_def)

lemma run_core:
  "core_eq w1 w2 \<Longrightarrow>
   fst (run rt a t ctx w1) = fst (run rt a t ctx w2)
   \<and> core_eq (snd (run rt a t ctx w1)) (snd (run rt a t ctx w2))"
  by (simp add: run_def Let_def core_eq_def set_history_def split: sum.splits)

lemma run_subtasks_core:
  "core_eq w1 w2 \<Longrightarrow>
   fst (run_subtasks rt a ts acc w1) = fst (run_subtasks rt a ts acc w2)
   \<and> core_eq (snd (run_subtasks rt a ts acc w1)) (snd (run_subtasks rt a ts acc w2))"
proof (induction ts arbitrary: acc w1 w2)
  case Nil
  then show ?case by simp
next
  case (Cons t ts)
  obtain r1 v1 where r1: "run rt a t None w1 = (r1, v1)" by (cases "run rt a t None w1")
  obtain r2 v2 where r2: "run rt a t None w2 = (r2, v2)" by (cases "run rt a t None w2")
  from run_core [OF Cons.prems, of rt a t None] r1 r2
  have e: "r2 = r1" and c: "core_eq v1 v2" by simp_all
  note r2' = r2 [unfolded e]
  show ?case
  proof (cases r1)
    case (Inl x)
    with c r1 r2' show ?thesis by simp
  next
    case (Inr s)
    with r1 r2' Cons.IH [OF c, of "acc @ [s]"] show ?thesis by simp
  qed
qed

lemma delegate_core:
  "core_eq w1 w2 \<Longrightarrow>
   fst (delegate rt reg ats res w1) = fst (delegate rt reg ats res w2)
   \<and> core_eq (snd (delegate rt reg ats res w1)) (snd (delegate rt reg ats res w2))"
proof (induction ats arbitrary: res w1 w2)
  case Nil
  then show ?case by simp
next
  case (Cons nt ats)
  obtain n ts where nt: "nt = (n, ts)" by (cases nt)
  show ?case
  proof (cases "map_of reg n")
    case None
    have "core_eq (w1\<lparr>warnings := warnings w1 @ [not_available_warning n]\<rparr>)
                  (w2\<lparr>warnings := warnings w2 @ [not_available_warning n]\<rparr>)"
      using Cons.prems by (simp add: core_eq_def)
    from Cons.IH [OF this, of res] None show ?thesis by (simp add: nt)
  next
    case (Some a)
    obtain r1 v1 where r1: "run_subtasks rt a ts [] w1 = (r1, v1)"
      by (cases "run_subtasks rt a ts [] w1")
    obtain r2 v2 where r2: "run_subtasks rt a ts [] w2 = (r2, v2)"
      by (cases "run_subtasks rt a ts [] w2")
    from run_subtasks_core [OF Cons.prems, of rt a ts "[]"] r1 r2
    have e: "r2 = r1" and c: "core_eq v1 v2" by simp_all
    note r2' = r2 [unfolded e]
    show ?thesis
    proof (cases r1)
      case (Inl x)
      with c r1 r2' Some show ?thesis by (simp add: nt)
    next
      case (Inr ss)
      with r1 r2' Some Cons.IH [OF c, of "AList.update n ss res"] show ?thesis
        by (simp add: nt)
    qed
  qed
qed

lemma delegate_filter:
  "fst (delegate rt reg ats res w)
     = fst (delegate rt reg (filter (\<lambda>(n, ts). map_of reg n \<noteq> None) ats) res w)
   \<and> core_eq (snd (delegate rt reg ats res w))
        (snd (delegate rt reg (filter (\<lambda>(n, ts). map_of reg n \<noteq> None) ats) res w))"
proof (induction ats arbitrary: res w)
  case Nil
  then show ?case by (simp add: core_eq_refl)
next
  case (Cons nt ats)
  let ?known = "filter (\<lambda>(n, ts). map_of reg n \<noteq> None)"
  obtain n ts where nt: "nt = (n, ts)" by (cases nt)
  show ?case
  proof (cases "map_of reg n")
    case None
    let ?w = "w\<lparr>warnings := warnings w @ [not_available_warning n]\<rparr>"
    note a = Cons.IH [of res ?w]
    have cw: "core_eq ?w w" by (rule core_eq_warnings)
    note b = delegate_core [OF cw, of rt reg "?known ats" res]
    from a b None show ?thesis
      by (auto simp: nt intro: core_eq_trans)
  next
    case (Some a)
    show ?thesis
    proof (cases "run_subtasks rt a ts [] w")
      case (Pair r v)
      show ?thesis
      proof (cases r)
        case (Inl x)
        with Pair Some show ?thesis by (simp add: nt core_eq_refl)
      next
        case (Inr ss)
        with Pair Some Cons.IH [of "AList.update n ss res" v] show ?thesis by (simp add: nt)
      qed
    qed
  qed
qed

lemma run_subtasks_warnings:
  "warnings (snd (run_subtasks rt a ts acc w)) = warnings w"
proof -
  have "same_identity w w" by (rule same_identity_refl)
  from run_subtasks_feed [OF this, of rt a ts acc] show ?thesis by simp
qed

lemma delegate_warnings:
  "fst (delegate rt reg ats res w) = Inr results \<Longrightarrow>
   warnings (snd (delegate rt reg ats res w)) =
     warnings w @ map (\<lambda>(n, ts). not_available_warning n)
                    (filter (\<lambda>(n, ts). map_of reg n = None) ats)"
proof (induction ats arbitrary: res w)
  case Nil
  then show ?case by simp
next
  case (Cons nt ats)
  obtain n ts where nt: "nt = (n, ts)" by (cases nt)
  show ?case
  proof (cases "map_of reg n")
    case None
    with Cons.prems Cons.IH [of res "w\<lparr>warnings := warnings w @ [not_available_warning n]\<rparr>"]
    show ?thesis by (simp add: nt)
  next
    case (Some a)
    show ?thesis
    proof (cases "run_subtasks rt a ts [] w")
      case (Pair r v)
      have wv: "warnings v = warnings w"
        using run_subtasks_warnings [of rt a ts "[]" w] Pair by simp
      show ?thesis
      proof (cases r)
        case (Inl x)
        with Pair Some Cons.prems show ?thesis by (simp add: nt)
      next
        case (Inr ss)
        with Pair Some Cons.prems Cons.IH [of "AList.update n ss res" v] wv show ?thesis
          by (simp add: nt)
      qed
    qed
  qed
qed

lemma known_filter:
  "filter (\<lambda>(n, ts). n \<in> set (list_available_agents c)) ats
     = filter (\<lambda>(n, ts). map_of (available_agents c) n \<noteq> None) ats"
  by (rule filter_cong) (auto simp: list_available_agents_def map_of_eq_None_iff)

lemma unknown_filter:
  "filter (\<lambda>(n, ts). n \<notin> set (list_available_agents c)) ats
     = filter (\<lambda>(n, ts). map_of (available_agents c) n = None) ats"
  by (rule filter_cong) (auto simp: list_available_agents_def map_of_eq_None_iff)

lemma delegate_and_synthesize_filter:
  "fst (delegate_and_synthesize rt c task ats w)
     = fst (delegate_and_synthesize rt c task
              (filter (\<lambda>(n, ts). n \<in> set (list_available_agents c)) ats) w)
   \<and> core_eq (snd (delegate_and_synthesize rt c task ats w))
        (snd (delegate_and_synthesize rt c task
                (filter (\<lambda>(n, ts). n \<in> set (list_available_agents c)) ats) w))"
proof -
  let ?known = "filter (\<lambda>(n, ts). map_of (available_agents c) n \<noteq> None) ats"
  obtain r1 v1 where d1: "delegate rt (available_agents c) ats [] w = (r1, v1)"
    by (cases "delegate rt (available_agents c) ats [] w")
  obtain r2 v2 where d2: "delegate rt (available_agents c) ?known [] w = (r2, v2)"
    by (cases "delegate rt (available_agents c) ?known [] w")
  from delegate_filter [of rt "available_agents c" ats "[]" w] d1 d2
  have e: "r2 = r1" and ce: "core_eq v1 v2" by simp_all
  note d2' = d2 [unfolded e]
  show ?thesis
  proof (cases r1)
    case (Inl x)
    with ce d1 d2' show ?thesis
      by (simp add: known_filter delegate_and_synthesize_def)
  next
    case (Inr results)
    with d1 d2' run_core [OF ce, of rt "coordinator_ref c" "synthesis_task rt task results" None]
    show ?thesis
      by (simp add: known_filter delegate_and_synthesize_def)
  qed
qed

lemma delegate_and_synthesize_warnings:
  assumes "fst (delegate_and_synthesize rt c task ats w) = Inr out"
  shows "warnings (snd (delegate_and_synthesize rt c task ats w)) =
     warnings w @ map (\<lambda>(n, ts). not_available_warning n)
                    (filter (\<lambda>(n, ts). n \<notin> set (list_available_agents c)) ats)"
proof -
  obtain r v where d: "delegate rt (available_agents c) ats [] w = (r, v)"
    by (cases "delegate rt (available_agents c) ats [] w")
  show ?thesis
  proof (cases r)
    case (Inl x)
    with d assms show ?thesis by (simp add: delegate_and_synthesize_def)
  next
    case (Inr results)
    with d delegate_warnings [of rt "available_agents c" ats "[]" w results]
    show ?thesis
      by (simp add: delegate_and_synthesize_def run_warnings unknown_filter)
  qed
qed

text \<open>
  C4: \<open>delegate_and_synthesize\<close> on a delegation map returns or raises what it does
  on the map without the entries whose name is not registered, with the same store
  of agents and the same calls to the client; an unregistered name raises nothing
  and adds nothing to the results that are synthesized. When the call returns, one
  warning has been logged for every such entry, in order. When no name of the map
  is registered, exactly one call is issued, the synthesis call over the empty
  results, and its outcome is the outcome of \<open>delegate_and_synthesize\<close>.
\<close>

theorem unknown_agents_skipped:
  "fst (delegate_and_synthesize rt c task agent_tasks w)
     = fst (delegate_and_synthesize rt c task
              (filter (\<lambda>(n, ts). n \<in> set (list_available_agents c)) agent_tasks) w)
   \<and> agents (snd (delegate_and_synthesize rt c task agent_tasks w))
     = agents (snd (delegate_and_synthesize rt c task
              (filter (\<lambda>(n, ts). n \<in> set (list_available_agents c)) agent_tasks) w))
   \<and> calls (snd (delegate_and_synthesize rt c task agent_tasks w))
     = calls (snd (delegate_and_synthesize rt c task
              (filter (\<lambda>(n, ts). n \<in> set (list_available_agents c)) agent_tasks) w))
   \<and> (\<forall>out. fst (delegate_and_synthesize rt c task agent_tasks w) = Inr out \<longrightarrow>
        warnings (snd (delegate_and_synthesize rt c task agent_tasks w))
          = warnings w @ map (\<lambda>(n, ts). not_available_warning n)
              (filter (\<lambda>(n, ts). n \<notin> set (list_available_agents c)) agent_tasks))
   \<and> ((\<forall>(n, ts) \<in> set agent_tasks. n \<notin> set (list_available_agents c)) \<longrightarrow>
        fst (delegate_and_synthesize rt c task agent_tasks w)
          = client_generate rt (calls w)
              (generate_request (agents w (coordinator_ref c)) (synthesis_task rt task []))
      \<and> calls (snd (delegate_and_synthesize rt c task agent_tasks w))
          = calls w @ [generate_request (agents w (coordinator_ref c)) (synthesis_task rt task [])])"
proof -
  let ?known = "filter (\<lambda>(n, ts). n \<in> set (list_available_agents c)) agent_tasks"
  note f = delegate_and_synthesize_filter [of rt c task agent_tasks w]
  have none: "fst (delegate_and_synthesize rt c task agent_tasks w)
          = client_generate rt (calls w)
              (generate_request (agents w (coordinator_ref c)) (synthesis_task rt task []))
      \<and> calls (snd (delegate_and_synthesize rt c task agent_tasks w))
          = calls w @ [generate_request (agents w (coordinator_ref c)) (synthesis_task rt task [])]"
    if u: "\<forall>(n, ts) \<in> set agent_tasks. n \<notin> set (list_available_agents c)"
  proof -
    from u have k: "?known = []" by (auto simp: filter_empty_conv)
    have "delegate_and_synthesize rt c task [] w
            = run rt (coordinator_ref c) (synthesis_task rt task []) None w"
      by (simp add: delegate_and_synthesize_def)
    with f k show ?thesis by (simp add: core_eq_def run_fst run_calls)
  qed
  from f none delegate_and_synthesize_warnings [of rt c task agent_tasks w]
  show ?thesis by (simp add: core_eq_def)
qed

text \<open>
  C4 at a delegation map whose only name, \<open>X\<close>, is not registered: the call returns
  the synthesis over no results, and one warning is logged.
\<close>

theorem unknown_agents_skipped_witness:
  "''X'' \<notin> set (list_available_agents example_coordinator)
   \<and> fst (delegate_and_synthesize (example_runtime None example_response) example_coordinator
          ''T'' [(''X'', [''t1'', ''t2''])] example_world) = Inr ''ok''
   \<and> calls (snd (delegate_and_synthesize (example_runtime None example_response)
          example_coordinator ''T'' [(''X'', [''t1'', ''t2''])] example_world))
       = [generate_request (example_agent ''Coordinator'')
            (synthesis_task (example_runtime None example_response) ''T'' [])]
   \<and> warnings (snd (delegate_and_synthesize (example_runtime None example_response)
          example_coordinator ''T'' [(''X'', [''t1'', ''t2''])] example_world))
       = [''Agent X not available, skipping'']"
proof -
  let ?rt = "example_runtime None example_response"
  let ?ats = "[(''X'', [''t1'', ''t2''])]"
  have u: "\<forall>(n, ts) \<in> set ?ats. n \<notin> set (list_available_agents example_coordinator)"
    by (simp add: list_available_agents_def example_registry)
  have g: "client_generate ?rt []
             (generate_request (example_agent ''Coordinator'') (synthesis_task ?rt ''T'' []))
           = Inr ''ok''"
    by (simp add: example_runtime_def)
  have c: "calls example_world = []" "warnings example_world = []"
    "agents example_world (coordinator_ref example_coordinator) = example_agent ''Coordinator''"
    by (simp_all add: example_world_def example_coordinator_ref)
  have f: "filter (\<lambda>(n, ts). n \<notin> set (list_available_agents example_coordinator)) ?ats = ?ats"
    by (simp add: list_available_agents_def example_registry)
  note t = unknown_agents_skipped [of ?rt example_coordinator "''T''" ?ats example_world]
  from t u
  have "fst (delegate_and_synthesize ?rt example_coordinator ''T'' ?ats example_world)
          = client_generate ?rt (calls example_world)
              (generate_request (agents example_world (coordinator_ref example_coordinator))
                 (synthesis_task ?rt ''T'' []))"
    and "calls (snd (delegate_and_synthesize ?rt example_coordinator ''T'' ?ats example_world))
          = calls example_world
              @ [generate_request (agents example_world (coordinator_ref example_coordinator))
                   (synthesis_task ?rt ''T'' [])]"
    by blast+
  then have 1: "fst (delegate_and_synthesize ?rt example_coordinator ''T'' ?ats example_world) = Inr ''ok''"
    and 2: "calls (snd (delegate_and_synthesize ?rt example_coordinator ''T'' ?ats example_world))
       = [generate_request (example_agent ''Coordinator'') (synthesis_task ?rt ''T'' [])]"
    unfolding c g by simp_all
  from t 1
  have "warnings (snd (delegate_and_synthesize ?rt example_coordinator ''T'' ?ats example_world))
       = warnings example_world @ map (\<lambda>(n, ts). not_available_warning n)
           (filter (\<lambda>(n, ts). n \<notin> set (list_available_agents example_coordinator)) ?ats)"
    by blast
  then have 3: "warnings (snd (delegate_and_synthesize ?rt example_coordinator ''T'' ?ats example_world))
       = [''Agent X not available, skipping'']"
    unfolding f c by (simp add: not_available_warning_def)
  have x: "''X'' \<notin> set (list_available_agents example_coordinator)"
    by (simp add: list_available_agents_def example_registry)
  from x 1 2 3 show ?thesis by blast
qed

end
